theory Spec2Isabelle
  imports Complex_Main "HOL-Library.Word" "HOL-Library.Log_Nat" "HOL-Library.Sublist" "HOL-Library.AList"
begin

section \<open>Data model\<close>

text \<open>
  The repository holds two Python modules: \<^verbatim>\<open>aui_tts_piper.py\<close>, the asynchronous adapter
  class \<^verbatim>\<open>PiperTTS\<close>, and \<^verbatim>\<open>aui_adapter_tts_piper.py\<close>, a synchronous stub of the same
  name. Python attributes whose names start with an underscore are written with the
  prefix \<open>self_\<close> (\<^verbatim>\<open>self._rate\<close> is \<open>self_rate\<close>), and the private methods lose their
  leading underscore (\<^verbatim>\<open>_synth_blocking\<close> is \<open>synth_blocking\<close>).
\<close>

type_synonym byte = "8 word"

text \<open>\<^verbatim>\<open>auicommon.audio.types.PcmAudio\<close>, built by keyword in the adapter.\<close>

record PcmAudio =
  data :: "byte list"
  rate :: int
  channels :: int
  width :: int

text \<open>
  Exceptions that are instances of Python's \<^verbatim>\<open>Exception\<close>, the class both
  \<^verbatim>\<open>except Exception\<close> handlers of the module catch. Interpreter signals outside that
  class (keyboard interrupt, interpreter exit, task cancellation) and memory exhaustion
  are outside the model.
\<close>

datatype exn =
  RuntimeError string
  | OverflowError
  | ModuleNotFoundError string
  | TypeError
  | OtherException string

record CancellationToken =
  is_cancelled :: bool

datatype engine = Engine

text \<open>The attributes set by \<^verbatim>\<open>PiperTTS.__init__\<close>; the sample rate is a Python int, 22050
  when the caller gives none, and the keyword arguments are kept as they come.\<close>

record PiperTTS =
  self_model :: "string option"
  self_voice :: "string option"
  self_rate :: int
  self_engine :: "engine option"
  self_stopped :: bool
  self_kw :: "(string \<times> string) list"

definition init :: "string option \<Rightarrow> string option \<Rightarrow> int \<Rightarrow> (string \<times> string) list \<Rightarrow> PiperTTS" where
  "init model voice sample_rate kwargs =
     \<lparr>self_model = model, self_voice = voice, self_rate = sample_rate,
      self_engine = None, self_stopped = False, self_kw = kwargs\<rparr>"

section \<open>The arithmetic of \<^verbatim>\<open>int(self._rate * 0.1)\<close>\<close>

text \<open>
  \<^verbatim>\<open>self._rate * 0.1\<close> multiplies a Python int by a float: the int is converted to an
  IEEE 754 binary64 value (rounding to nearest, ties to even; \<^verbatim>\<open>OverflowError\<close> when the
  rounded value reaches \<open>2 ^ 1024\<close>), the two doubles are multiplied with the same
  rounding, and \<^verbatim>\<open>int()\<close> truncates the product towards zero. A finite double is
  written here as a pair \<open>(m, e)\<close> of integers standing for \<open>m * 2 ^ e\<close>; all steps are
  exact integer arithmetic.
\<close>

type_synonym double = "int \<times> int"

text \<open>Dropping the low \<open>sh\<close> bits of a non-negative integer, to nearest, ties to even.\<close>

definition round_half_even :: "int \<Rightarrow> nat \<Rightarrow> int" where
  "round_half_even a sh =
     (if sh = 0 then a
      else let q = a div 2 ^ sh; r = a mod 2 ^ sh; h = 2 ^ (sh - 1)
           in if h < r \<or> (r = h \<and> odd q) then q + 1 else q)"

text \<open>A non-negative integer rounded to a 53-bit significand: the significand and the
  number of bits dropped.\<close>

definition to53 :: "int \<Rightarrow> int \<times> nat" where
  "to53 a =
     (let n = bitlen a
      in if n \<le> 53 then (a, 0) else (round_half_even a (nat (n - 53)), nat (n - 53)))"

definition float_of_int :: "int \<Rightarrow> exn + double" where
  "float_of_int r =
     (case to53 \<bar>r\<bar> of (m, sh) \<Rightarrow>
        if 2 ^ 1024 \<le> m * 2 ^ sh then Inl OverflowError else Inr (sgn r * m, int sh))"

text \<open>The product of two finite doubles, for operands whose product lies in the normal
  range (no overflow to infinity and no subnormal result), as every product of a
  converted non-zero integer with \<open>0.1\<close> does.\<close>

definition float_mul :: "double \<Rightarrow> double \<Rightarrow> double" where
  "float_mul x y =
     (case x of (m1, e1) \<Rightarrow> case y of (m2, e2) \<Rightarrow>
        case to53 \<bar>m1 * m2\<bar> of (m, sh) \<Rightarrow> (sgn (m1 * m2) * m, e1 + e2 + int sh))"

definition int_of_float :: "double \<Rightarrow> int" where
  "int_of_float x =
     (case x of (m, e) \<Rightarrow>
        if 0 \<le> e then m * 2 ^ nat e else sgn m * (\<bar>m\<bar> div 2 ^ nat (- e)))"

text \<open>The double nearest to one tenth, the value of the literal \<^verbatim>\<open>0.1\<close>.\<close>

definition tenth :: double where
  "tenth = (3602879701896397, - 55)"

definition n_samples :: "int \<Rightarrow> exn + int" where
  "n_samples r =
     (case float_of_int r of
        Inl e \<Rightarrow> Inl e
      | Inr x \<Rightarrow> Inr (int_of_float (float_mul x tenth)))"

text \<open>\<^verbatim>\<open>bs * n\<close> on bytes: \<open>n\<close> copies, none when \<open>n\<close> is not positive. Lists have no
  bound on their length here, where the interpreter has one that depends on the
  platform and its memory.\<close>

definition bytes_repeat :: "byte list \<Rightarrow> int \<Rightarrow> byte list" where
  "bytes_repeat bs n = concat (replicate (nat n) bs)"

section \<open>The asynchronous adapter\<close>

text \<open>
  What the module reads from its surroundings: \<open>find_spec n\<close> tells whether
  \<^verbatim>\<open>importlib.util.find_spec(n)\<close> returns a spec rather than \<^verbatim>\<open>None\<close>, and
  \<open>normalize_to_canon\<close> is the optional helper of \<^verbatim>\<open>auicommon.audio.convert\<close>, \<open>None\<close> when its
  import failed; applied to a PCM value it returns one or raises. The probe itself is
  taken to return for each of the three names.
\<close>

record env =
  find_spec :: "string \<Rightarrow> bool"
  normalize_to_canon :: "(PcmAudio \<Rightarrow> exn + PcmAudio) option"

text \<open>
  The effects a call leaves behind: a blocking routine handed to \<^verbatim>\<open>asyncio.to_thread\<close>,
  or audio handed to the core's audio sink for playback.
\<close>

datatype blocking_call =
  InitBlocking
  | SynthBlocking string "CancellationToken option"

datatype effect =
  ToThread blocking_call
  | SinkPlay PcmAudio

definition candidates :: "string list" where
  "candidates = [''piper'', ''piper_tts'', ''piper-tts'']"

text \<open>The message of the error, line breaks and the letter o with diaeresis (code point
  \<open>0xF6\<close>) included.\<close>

definition not_installed_message :: string where
  "not_installed_message =
     ''Piper-TTS ist nicht installiert. Bitte separat installieren, z. B.:\<newline>'' @
     ''  pip install piper-tts\<newline>'' @
     ''Achtung: Piper steht unter GPLv3; die Nutzung kann GPL-Pflichten ausl'' @
     [CHR 0xF6] @ ''sen.''"

text \<open>\<^verbatim>\<open>_require_piper\<close> (lines 106 to 116). The candidates are string literals, so the
  \<^verbatim>\<open>isinstance\<close> filter of the generator keeps each of them.\<close>

definition require_piper :: "env \<Rightarrow> exn + unit" where
  "require_piper ev =
     (if \<not> list_ex (find_spec ev) candidates
      then Inl (RuntimeError not_installed_message)
      else Inr ())"

text \<open>\<^verbatim>\<open>_init_blocking\<close> (lines 80 to 85): its body is \<^verbatim>\<open>pass\<close>.\<close>

definition init_blocking :: "PiperTTS \<Rightarrow> PiperTTS" where
  "init_blocking s = s"

text \<open>\<^verbatim>\<open>_synth_blocking\<close> (lines 87 to 102): the empty value when the flag is set, else the
  placeholder's silence. Neither the text nor the token is read.\<close>

definition synth_blocking :: "PiperTTS \<Rightarrow> string \<Rightarrow> CancellationToken option \<Rightarrow> exn + PcmAudio" where
  "synth_blocking s text cancel =
     (if self_stopped s
      then Inr \<lparr>data = [], rate = self_rate s, channels = 1, width = 2\<rparr>
      else case n_samples (self_rate s) of
             Inl e \<Rightarrow> Inl e
           | Inr n \<Rightarrow>
               Inr \<lparr>data = bytes_repeat [0, 0] n, rate = self_rate s, channels = 1, width = 2\<rparr>)"

text \<open>\<^verbatim>\<open>stop\<close> (lines 72 to 76) sets the flag and awaits nothing.\<close>

definition stop :: "PiperTTS \<Rightarrow> PiperTTS" where
  "stop s = s\<lparr>self_stopped := True\<rparr>"

text \<open>
  \<^verbatim>\<open>synth\<close> (lines 47 to 62) runs in three parts. Its entry (the availability check and
  the clearing of the flag, lines 51 and 52) runs on the event loop. It then awaits \<^verbatim>\<open>asyncio.to_thread\<close>: until the worker
  thread reads the flag in \<^verbatim>\<open>_synth_blocking\<close>, other coroutines of the loop may run, and
  of the adapter's operations only \<^verbatim>\<open>stop\<close> and the entry of another \<^verbatim>\<open>synth\<close> write the
  flag; the list \<open>others\<close> gives those calls in the order in which they run. After the
  await, the result goes through the optional normalisation.
\<close>

definition synth_entry :: "env \<Rightarrow> PiperTTS \<Rightarrow> exn + PiperTTS" where
  "synth_entry ev s =
     (case require_piper ev of
        Inl e \<Rightarrow> Inl e
      | Inr _ \<Rightarrow> Inr (s\<lparr>self_stopped := False\<rparr>))"

datatype other_call = OtherStop | OtherSynth

fun other_step :: "env \<Rightarrow> PiperTTS \<Rightarrow> other_call \<Rightarrow> PiperTTS" where
  "other_step ev s OtherStop = stop s"
| "other_step ev s OtherSynth = (case synth_entry ev s of Inl e \<Rightarrow> s | Inr s' \<Rightarrow> s')"

text \<open>The adapter as the worker thread finds it when \<^verbatim>\<open>_synth_blocking\<close> starts.\<close>

definition worker_view :: "env \<Rightarrow> other_call list \<Rightarrow> PiperTTS \<Rightarrow> exn + PiperTTS" where
  "worker_view ev others s =
     (case synth_entry ev s of
        Inl e \<Rightarrow> Inl e
      | Inr s1 \<Rightarrow> Inr (foldl (other_step ev) s1 others))"

text \<open>The end of \<^verbatim>\<open>synth\<close> (lines 56 to 62): the normalised value when the helper is
  there and returns, the value itself when it is absent or raises.\<close>

definition synth_return :: "env \<Rightarrow> PcmAudio \<Rightarrow> PcmAudio" where
  "synth_return ev pcm =
     (case normalize_to_canon ev of
        None \<Rightarrow> pcm
      | Some f \<Rightarrow> (case f pcm of Inr canon \<Rightarrow> canon | Inl e \<Rightarrow> pcm))"

text \<open>Each public operation returns its result or the exception it raises, the adapter
  afterwards, and the effects it left, in order. \<^verbatim>\<open>say\<close> (lines 64 to 70) awaits \<^verbatim>\<open>synth\<close>
  and drops its value.\<close>

definition preload :: "env \<Rightarrow> PiperTTS \<Rightarrow> (exn + unit) \<times> PiperTTS \<times> effect list" where
  "preload ev s =
     (case require_piper ev of
        Inl e \<Rightarrow> (Inl e, s, [])
      | Inr _ \<Rightarrow> (Inr (), init_blocking s, [ToThread InitBlocking]))"

definition synth ::
  "env \<Rightarrow> other_call list \<Rightarrow> PiperTTS \<Rightarrow> string \<Rightarrow> CancellationToken option
     \<Rightarrow> (exn + PcmAudio) \<times> PiperTTS \<times> effect list" where
  "synth ev others s text cancel =
     (case worker_view ev others s of
        Inl e \<Rightarrow> (Inl e, s, [])
      | Inr s2 \<Rightarrow>
          (case synth_blocking s2 text cancel of
             Inl e \<Rightarrow> (Inl e, s2, [ToThread (SynthBlocking text cancel)])
           | Inr pcm \<Rightarrow> (Inr (synth_return ev pcm), s2, [ToThread (SynthBlocking text cancel)])))"

definition say ::
  "env \<Rightarrow> other_call list \<Rightarrow> PiperTTS \<Rightarrow> string \<Rightarrow> CancellationToken option
     \<Rightarrow> (exn + unit) \<times> PiperTTS \<times> effect list" where
  "say ev others s text cancel =
     (case synth ev others s text cancel of
        (Inl e, s', effs) \<Rightarrow> (Inl e, s', effs)
      | (Inr pcm, s', effs) \<Rightarrow> (Inr (), s', effs))"

section \<open>Loading the adapter module\<close>

text \<open>
  The statements at module level, in order: the import of \<^verbatim>\<open>PcmAudio\<close> (line 7), the
  guarded import of the normalisation helper (lines 9 to 13), the class, and the guarded
  self-registration (lines 119 to 126). The
  surroundings decide how each import ends and what the factory module looks like.
\<close>

datatype ctor = PiperTTS_ctor

text \<open>The \<^verbatim>\<open>REGISTRY\<close> attribute: a dictionary, or an object whose item assignment raises.\<close>

datatype registry = Dict "(string \<times> ctor) list" | NoItemAssignment

record factory =
  register :: "(string \<Rightarrow> ctor \<Rightarrow> exn + unit) option"
  REGISTRY :: "registry option"

record import_outcomes =
  import_PcmAudio :: "exn option"
  import_convert :: "exn + (PcmAudio \<Rightarrow> exn + PcmAudio)"
  import_factory :: "exn + factory"

datatype registration =
  NotRegistered
  | RegisterCalled string ctor
  | RegistryItemSet "(string \<times> ctor) list"

text \<open>The body of the last \<^verbatim>\<open>try\<close>: the import of the factory module, then a call of its
  \<^verbatim>\<open>register\<close> if it has one, else an item assignment to its \<^verbatim>\<open>REGISTRY\<close> if it has one.\<close>

definition registration_body :: "exn + factory \<Rightarrow> exn + registration" where
  "registration_body imported =
     (case imported of
        Inl e \<Rightarrow> Inl e
      | Inr f \<Rightarrow>
          (case register f of
             Some reg \<Rightarrow>
               (case reg ''piper'' PiperTTS_ctor of
                  Inl e \<Rightarrow> Inl e
                | Inr _ \<Rightarrow> Inr (RegisterCalled ''piper'' PiperTTS_ctor))
           | None \<Rightarrow>
               (case REGISTRY f of
                  Some (Dict d) \<Rightarrow> Inr (RegistryItemSet (AList.update ''piper'' PiperTTS_ctor d))
                | Some NoItemAssignment \<Rightarrow> Inl TypeError
                | None \<Rightarrow> Inr NotRegistered)))"

record loaded_module =
  module_normalize_to_canon :: "(PcmAudio \<Rightarrow> exn + PcmAudio) option"
  module_registration :: registration

text \<open>Importing the module: the first import raises or not; both \<^verbatim>\<open>try\<close> statements
  end in a handler that catches what their body raised.\<close>

definition load_module :: "import_outcomes \<Rightarrow> exn + loaded_module" where
  "load_module im =
     (case import_PcmAudio im of
        Some e \<Rightarrow> Inl e
      | None \<Rightarrow>
          Inr \<lparr>module_normalize_to_canon =
                 (case import_convert im of Inl e \<Rightarrow> None | Inr f \<Rightarrow> Some f),
               module_registration =
                 (case registration_body (import_factory im) of
                    Inl e \<Rightarrow> NotRegistered
                  | Inr r \<Rightarrow> r)\<rparr>)"

section \<open>The synchronous stub\<close>

text \<open>The class \<^verbatim>\<open>PiperTTS\<close> of \<^verbatim>\<open>aui_adapter_tts_piper.py\<close>, here \<open>Stub\<close>; each operation
  returns the object afterwards and the lines it printed.\<close>

record Stub =
  self_speaking :: bool

definition stub_init :: Stub where
  "stub_init = \<lparr>self_speaking = False\<rparr>"

definition stub_say :: "Stub \<Rightarrow> string \<Rightarrow> Stub \<times> string list" where
  "stub_say s text = (s\<lparr>self_speaking := True\<rparr>, [''[Piper] say: '' @ text])"

definition stub_stop :: "Stub \<Rightarrow> Stub \<times> string list" where
  "stub_stop s =
     (s\<lparr>self_speaking := False\<rparr>, if self_speaking s then [''[Piper] stop''] else [])"

section \<open>The payload length in the words of the specification\<close>

text \<open>The specification gives the length of the placeholder's payload as
  \<open>sample_rate * 0.1 * 2\<close> bytes.\<close>

definition spec_payload_bytes :: "int \<Rightarrow> real" where
  "spec_payload_bytes r = real_of_int r * (1 / 10) * 2"

section \<open>Sample surroundings\<close>

text \<open>An installation with the package \<^verbatim>\<open>piper\<close>, and one with none of the candidates.\<close>

definition only_piper :: "string \<Rightarrow> bool" where
  "only_piper n = (n = ''piper'')"

definition nothing_installed :: "string \<Rightarrow> bool" where
  "nothing_installed n = False"

text \<open>
  A normaliser to the format the comment in \<^verbatim>\<open>synth\<close> names (16-bit, 16 kHz, mono). It
  serves the inputs that need no resampling, an empty payload or one already in that
  format, and raises on every other.
\<close>

definition canon_16k :: "PcmAudio \<Rightarrow> exn + PcmAudio" where
  "canon_16k p =
     (if data p = [] \<or> (rate p = 16000 \<and> channels p = 1 \<and> width p = 2)
      then Inr (p\<lparr>rate := 16000, channels := 1, width := 2\<rparr>)
      else Inl (OtherException ''resampling is not available''))"

text \<open>A registration function that rejects every name.\<close>

definition rejecting_register :: "string \<Rightarrow> ctor \<Rightarrow> exn + unit" where
  "rejecting_register name c = Inl (OtherException ''registry is closed'')"

section \<open>Properties of the arithmetic\<close>

text \<open>The bit length of a number below \<open>2 ^ k\<close> is at most \<open>k\<close>.\<close>

lemma bitlen_le:
  assumes "a < 2 ^ k"
  shows "bitlen a \<le> int k"
proof (cases "0 < a")
  case True
  from bitlen_bounds [OF True] assms have "(2::int) ^ nat (bitlen a - 1) < 2 ^ k"
    by linarith
  then have "nat (bitlen a - 1) < k"
    by (simp add: power_strict_increasing_iff)
  then show ?thesis by linarith
next
  case False
  then have "bitlen a = 0" by (simp add: bitlen_eq_zero_iff)
  then show ?thesis by simp
qed

text \<open>Rounding moves a number by at most half of the last place kept.\<close>

lemma round_half_even_lower:
  "a div 2 ^ sh \<le> round_half_even a sh"
  by (cases sh) (simp_all add: round_half_even_def Let_def)

lemma round_half_even_upper:
  "round_half_even a sh * 2 ^ sh \<le> a + 2 ^ sh div 2"
proof (cases sh)
  case 0
  then show ?thesis by (simp add: round_half_even_def)
next
  case (Suc k)
  define S :: int where "S = 2 ^ sh"
  define h :: int where "h = 2 ^ k"
  have S: "S = 2 * h" by (simp add: S_def h_def Suc)
  have split: "a = (a div S) * S + a mod S" by simp
  have up: "(a div S + 1) * S \<le> a + h" if "h \<le> a mod S"
  proof -
    have "(a div S + 1) * S = (a div S) * S + S" by (simp add: algebra_simps)
    also have "\<dots> = a - a mod S + 2 * h" using S by (simp add: minus_mod_eq_div_mult [symmetric])
    finally show ?thesis using that by linarith
  qed
  have down: "(a div S) * S \<le> a + h"
  proof -
    have "0 \<le> a mod S" "0 \<le> h" by (simp_all add: S_def h_def)
    moreover have "(a div S) * S = a - a mod S" by (simp add: minus_mod_eq_div_mult [symmetric])
    ultimately show ?thesis by linarith
  qed
  have k: "sh \<noteq> 0" "sh - 1 = k" by (simp_all add: Suc)
  have rhe: "round_half_even a sh =
      (if h < a mod S \<or> (a mod S = h \<and> odd (a div S)) then a div S + 1 else a div S)"
    unfolding round_half_even_def Let_def S_def h_def using k by simp
  have hh: "S div 2 = h" by (simp add: S)
  show ?thesis
    unfolding rhe S_def [symmetric] hh using up down by auto
qed

text \<open>
  Ten times the significand of \<open>tenth\<close> is \<open>2 ^ 55 + 2\<close>. A product \<open>r * tenth\<close> that
  is rounded by at most \<open>h\<close> in units of \<open>2 ^ - 55\<close> therefore truncates to \<open>r div 10\<close>
  as long as \<open>2 * r + 10 * h\<close> stays below \<open>2 ^ 55\<close>.
\<close>

lemma tenth_core:
  fixes r m h :: int
  assumes r: "0 \<le> r" and sh: "sh < 55"
    and lo: "(r * 3602879701896397) div 2 ^ sh \<le> m"
    and up: "m * 2 ^ sh \<le> r * 3602879701896397 + h"
    and small: "2 * r + 10 * h < 2 ^ 55"
  shows "m div 2 ^ (55 - sh) = r div 10"
proof -
  define Z :: int where "Z = 2 ^ 55"
  define S :: int where "S = 2 ^ sh"
  define D :: int where "D = 2 ^ (55 - sh)"
  define P :: int where "P = r * 3602879701896397"
  define q where "q = r div 10"
  define t where "t = r mod 10"
  have Zval: "Z = 36028797018963968" by (simp add: Z_def)
  have DS: "D * S = Z"
    using sh by (simp add: D_def S_def Z_def power_add [symmetric])
  have pos: "0 < S" "0 < D" "0 < Z" by (simp_all add: S_def D_def Z_def)
  have rq: "r = 10 * q + t" and t: "0 \<le> t" "t \<le> 9"
    using pos_mod_bound [of 10 r] by (simp_all add: q_def t_def)
  have tenP: "10 * P = r * Z + 2 * r"
    by (simp add: P_def Zval algebra_simps)
  have rZ: "r * Z = 10 * (q * Z) + t * Z"
    by (simp add: rq algebra_simps)
  have tZ: "0 \<le> t * Z" "t * Z \<le> 9 * Z"
    using t pos by (simp_all add: mult_right_mono)
  have low: "q * D \<le> m"
  proof -
    have "q * Z \<le> P" using tenP rZ tZ r by linarith
    then have "(q * D) * S \<le> P" using DS by (simp add: mult.assoc)
    then have "((q * D) * S) div S \<le> P div S" by (rule zdiv_mono1) (rule pos)
    then have "q * D \<le> P div S" using pos by simp
    then show ?thesis using lo by (simp add: P_def S_def)
  qed
  have high: "m < (q + 1) * D"
  proof -
    have small': "2 * r + 10 * h < Z" using small by (simp add: Z_def)
    have "(q + 1) * Z = q * Z + Z" by (simp add: algebra_simps)
    then have "P + h < (q + 1) * Z"
      using tenP rZ tZ small' by linarith
    then have "m * S < ((q + 1) * D) * S"
      using up DS by (simp add: P_def S_def mult.assoc)
    then show ?thesis using pos by (simp add: mult_less_cancel_right)
  qed
  have "m div D = q"
  proof (rule int_div_pos_eq [where r = "m - q * D"])
    show "m = D * q + (m - q * D)" by (simp add: algebra_simps)
    show "0 \<le> m - q * D" using low by simp
    show "m - q * D < D" using high by (simp add: algebra_simps)
  qed
  then show ?thesis by (simp add: D_def q_def)
qed


text \<open>What \<open>to53\<close> keeps: the rounding bounds, and at least 53 bits whenever it drops any.\<close>

lemma to53_bounds:
  assumes "to53 a = (m, sh)"
  shows "a div 2 ^ sh \<le> m" and "m * 2 ^ sh \<le> a + 2 ^ sh div 2"
    and "sh = 0 \<or> 2 ^ (sh + 52) \<le> a"
proof -
  show "a div 2 ^ sh \<le> m"
    using assms round_half_even_lower [of a "nat (bitlen a - 53)"]
    by (auto simp add: to53_def Let_def split: if_splits)
  show "m * 2 ^ sh \<le> a + 2 ^ sh div 2"
    using assms round_half_even_upper [of a "nat (bitlen a - 53)"]
    by (auto simp add: to53_def Let_def split: if_splits)
  show "sh = 0 \<or> 2 ^ (sh + 52) \<le> a"
  proof (cases "bitlen a \<le> 53")
    case True
    with assms show ?thesis by (simp add: to53_def)
  next
    case False
    with assms have sh: "sh = nat (bitlen a - 53)" by (simp add: to53_def Let_def)
    from False have "0 < a" using bitlen_eq_zero_iff [of a] by (cases "0 < a") auto
    from bitlen_bounds [OF this] have "2 ^ nat (bitlen a - 1) \<le> a" ..
    moreover have "nat (bitlen a - 1) = sh + 52" using False sh by linarith
    ultimately show ?thesis by simp
  qed
qed

text \<open>For every rate from 0 up to \<open>2 ^ 52\<close> the sample count is the rate divided by ten,
  rounded down.\<close>

lemma n_samples_div10:
  assumes "0 \<le> r" and "r < 2 ^ 52"
  shows "n_samples r = Inr (r div 10)"
proof -
  define P :: int where "P = r * 3602879701896397"
  obtain m sh where ms: "to53 P = (m, sh)" by (cases "to53 P")
  have P0: "0 \<le> P" using assms by (simp add: P_def)
  have "bitlen r \<le> 52" using bitlen_le [of r 52] assms by simp
  then have tr: "to53 r = (r, 0)" by (simp add: to53_def)
  have "r < 2 ^ 1024"
  proof -
    have "(2::int) ^ 52 \<le> 2 ^ 1024" by (rule power_increasing) simp_all
    with assms show ?thesis by linarith
  qed
  moreover have "sgn r * r = r" using assms by (simp add: sgn_if)
  ultimately have conv: "float_of_int r = Inr (r, 0)"
    using assms tr by (simp add: float_of_int_def)
  have mul: "float_mul (r, 0) tenth = (sgn P * m, int sh - 55)"
    using ms P0 by (simp add: float_mul_def tenth_def P_def)
  note b = to53_bounds [OF ms]
  have Plt: "P < r * 2 ^ 52 \<or> r = 0"
    using assms by (auto simp add: P_def)
  have shr: "sh = 0 \<or> 2 ^ sh < r"
  proof (cases "sh = 0")
    case False
    with b(3) have "(2::int) ^ sh * 2 ^ 52 \<le> P" by (simp add: power_add)
    moreover have "r \<noteq> 0" using calculation by (auto simp add: P_def)
    ultimately have "(2::int) ^ sh * 2 ^ 52 < r * 2 ^ 52" using Plt by linarith
    then show ?thesis by simp
  qed simp
  have sh55: "sh < 55"
  proof (cases "sh = 0")
    case False
    with shr assms have "(2::int) ^ sh < 2 ^ 52" by linarith
    then have "sh < 52" by (rule power_less_imp_less_exp [rotated]) simp
    then show ?thesis by simp
  qed simp
  have small: "2 * r + 10 * (2 ^ sh div 2) < (2::int) ^ 55"
  proof (cases "sh = 0")
    case True
    with assms show ?thesis by simp
  next
    case False
    have "2 * ((2::int) ^ sh div 2) \<le> 2 ^ sh" by simp
    with shr False have "10 * ((2::int) ^ sh div 2) < 5 * r" by linarith
    with assms show ?thesis by simp
  qed
  have core: "m div 2 ^ (55 - sh) = r div 10"
    using tenth_core [OF assms(1) sh55 _ _ small, of m] b(1,2) by (simp add: P_def)
  have "0 \<le> P div 2 ^ sh" using P0 by (simp add: pos_imp_zdiv_nonneg_iff)
  with b(1) have m0: "0 \<le> m" by linarith
  have "int_of_float (sgn P * m, int sh - 55) = r div 10"
  proof (cases "r = 0")
    case True
    then show ?thesis by (simp add: int_of_float_def P_def)
  next
    case False
    with assms have "0 < P" by (simp add: P_def)
    moreover have "nat (55 - int sh) = 55 - sh" by simp
    moreover have "int sh - 55 < 0" using sh55 by simp
    moreover have "m = 0 \<Longrightarrow> r div 10 = 0" using core by simp
    ultimately show ?thesis using m0 core
      by (cases "m = 0") (simp_all add: int_of_float_def)
  qed
  then show ?thesis by (simp add: n_samples_def conv mul)
qed

text \<open>The placeholder's payload is a run of zero bytes, two for each sample.\<close>

lemma bytes_repeat_zeros: "bytes_repeat [0, 0] n = replicate (2 * nat n) 0"
proof -
  have "concat (replicate k [0, 0 :: byte]) = replicate (2 * k) 0" for k
    by (induction k) simp_all
  then show ?thesis by (simp add: bytes_repeat_def)
qed

text \<open>Integers of magnitude below \<open>2 ^ 1023\<close> convert to a float.\<close>

lemma float_of_int_small:
  assumes "\<bar>r\<bar> < 2 ^ 1023"
  shows "\<exists>x. float_of_int r = Inr x"
proof -
  obtain m sh where ms: "to53 \<bar>r\<bar> = (m, sh)" by (cases "to53 \<bar>r\<bar>")
  note b = to53_bounds [OF ms]
  have "(2::int) ^ sh div 2 \<le> \<bar>r\<bar>"
  proof (cases "sh = 0")
    case False
    have "(2::int) ^ sh \<le> 2 ^ (sh + 52)" by (rule power_increasing) simp_all
    moreover have "(2::int) ^ sh div 2 \<le> 2 ^ sh" by (rule int_div_le_self) simp
    ultimately show ?thesis using b(3) False by linarith
  qed simp
  with b(2) have "m * 2 ^ sh \<le> 2 * \<bar>r\<bar>" by linarith
  moreover have "2 * (2::int) ^ 1023 = 2 ^ 1024" by simp
  ultimately have "m * 2 ^ sh < 2 ^ 1024" using assms by linarith
  then show ?thesis using ms by (simp add: float_of_int_def)
qed

lemma n_samples_small:
  assumes "\<bar>r\<bar> < 2 ^ 1023"
  shows "\<exists>n. n_samples r = Inr n"
  using float_of_int_small [OF assms] by (auto simp add: n_samples_def)

text \<open>Beyond \<open>2 ^ 52\<close> the rounded product can reach the next integer; a negative rate
  is truncated towards zero; the conversion fails from \<open>2 ^ 1024 - 2 ^ 970\<close> on.\<close>

lemma n_samples_examples:
  "n_samples 7148867227633939 = Inr 714886722763394"
  "n_samples (- 25) = Inr (- 2)"
  "n_samples (2 ^ 1024 - 2 ^ 970) = Inl OverflowError"
  by code_simp+

section \<open>Properties of the adapter\<close>

text \<open>Calls of other coroutines change nothing but the flag.\<close>

lemma other_step_flag_only: "\<exists>b. other_step ev s c = s\<lparr>self_stopped := b\<rparr>"
proof (cases c)
  case OtherStop
  then show ?thesis by (auto simp add: stop_def)
next
  case OtherSynth
  show ?thesis
  proof (cases "require_piper ev")
    case (Inl e)
    then have "other_step ev s c = s" using OtherSynth by (simp add: synth_entry_def)
    then show ?thesis by (intro exI [of _ "self_stopped s"]) simp
  next
    case (Inr u)
    then have "other_step ev s c = s\<lparr>self_stopped := False\<rparr>"
      using OtherSynth by (simp add: synth_entry_def)
    then show ?thesis by blast
  qed
qed

lemma others_flag_only: "\<exists>b. foldl (other_step ev) s others = s\<lparr>self_stopped := b\<rparr>"
proof (induction others arbitrary: s)
  case Nil
  have "s = s\<lparr>self_stopped := self_stopped s\<rparr>" by simp
  then show ?case by (metis foldl_Nil)
next
  case (Cons c cs)
  obtain b where b: "other_step ev s c = s\<lparr>self_stopped := b\<rparr>"
    using other_step_flag_only by blast
  obtain b' where "foldl (other_step ev) (s\<lparr>self_stopped := b\<rparr>) cs = s\<lparr>self_stopped := b, self_stopped := b'\<rparr>"
    using Cons.IH [of "s\<lparr>self_stopped := b\<rparr>"] by blast
  then show ?case using b by (auto intro: exI [of _ b'])
qed

lemma worker_view_rate:
  assumes "worker_view ev others s = Inr s2"
  shows "self_rate s2 = self_rate s"
proof -
  from assms obtain s1 where s1: "synth_entry ev s = Inr s1" and s2: "s2 = foldl (other_step ev) s1 others"
    by (auto simp add: worker_view_def split: sum.splits)
  from s1 have "self_rate s1 = self_rate s"
    by (auto simp add: synth_entry_def split: sum.splits)
  moreover obtain b where "s2 = s1\<lparr>self_stopped := b\<rparr>"
    using others_flag_only [of ev s1 others] s2 by auto
  ultimately show ?thesis by simp
qed

lemma worker_view_available:
  "(\<exists>s2. worker_view ev others s = Inr s2) = (require_piper ev = Inr ())"
  by (auto simp add: worker_view_def synth_entry_def split: sum.splits)

section \<open>The availability check\<close>

text \<open>
  Claim C3. When none of the three candidate names is found, \<open>preload\<close> and \<open>synth\<close> raise
  the same error, whose message names the install step and the licence; the adapter is
  as before and nothing has been handed to a worker thread.
\<close>

theorem engine_not_installed:
  assumes "\<not> find_spec ev ''piper''" and "\<not> find_spec ev ''piper_tts''"
    and "\<not> find_spec ev ''piper-tts''"
  shows "preload ev s = (Inl (RuntimeError not_installed_message), s, [])
    \<and> synth ev others s text cancel = (Inl (RuntimeError not_installed_message), s, [])
    \<and> sublist ''pip install piper-tts'' not_installed_message
    \<and> sublist ''GPLv3'' not_installed_message"
proof -
  have "require_piper ev = Inl (RuntimeError not_installed_message)"
    using assms by (simp add: require_piper_def candidates_def)
  moreover have "sublist ''pip install piper-tts'' not_installed_message"
    by code_simp
  moreover have "sublist ''GPLv3'' not_installed_message"
    by code_simp
  ultimately show ?thesis
    by (simp add: preload_def synth_def worker_view_def synth_entry_def)
qed

theorem engine_not_installed_witness:
  "preload \<lparr>find_spec = nothing_installed, normalize_to_canon = None\<rparr> (init None None 22050 [])
     = (Inl (RuntimeError not_installed_message), init None None 22050 [], [])
   \<and> synth \<lparr>find_spec = nothing_installed, normalize_to_canon = None\<rparr> [OtherStop]
        (init None None 22050 []) ''hallo'' None
     = (Inl (RuntimeError not_installed_message), init None None 22050 [], [])"
  using engine_not_installed [of "\<lparr>find_spec = nothing_installed, normalize_to_canon = None\<rparr>"
      "init None None 22050 []" "[OtherStop]" "''hallo''" None]
  by (simp add: nothing_installed_def)

text \<open>
  Claim C10. A call of \<open>preload\<close> or \<open>synth\<close> that raises the engine-not-installed error
  leaves every attribute of the adapter as it was, and leaves no effect.
\<close>

theorem not_installed_state_unchanged:
  "(fst (preload ev s) = Inl (RuntimeError not_installed_message)
      \<longrightarrow> snd (preload ev s) = (s, []))
   \<and> (fst (synth ev others s text cancel) = Inl (RuntimeError not_installed_message)
      \<longrightarrow> snd (synth ev others s text cancel) = (s, []))"
proof -
  have "snd (preload ev s) = (s, [])"
    if "fst (preload ev s) = Inl (RuntimeError not_installed_message)"
    using that by (cases "require_piper ev") (simp_all add: preload_def)
  moreover have "snd (synth ev others s text cancel) = (s, [])"
    if "fst (synth ev others s text cancel) = Inl (RuntimeError not_installed_message)"
  proof (cases "worker_view ev others s")
    case (Inl e)
    then show ?thesis by (simp add: synth_def)
  next
    case (Inr s2)
    have "n_samples r \<noteq> Inl (RuntimeError not_installed_message)" for r
      by (auto simp add: n_samples_def float_of_int_def split: sum.splits prod.splits if_splits)
    then have "synth_blocking s2 text cancel \<noteq> Inl (RuntimeError not_installed_message)"
      by (auto simp add: synth_blocking_def split: sum.splits)
    with that Inr show ?thesis
      by (cases "synth_blocking s2 text cancel") (simp_all add: synth_def)
  qed
  ultimately show ?thesis by blast
qed

theorem not_installed_state_unchanged_witness:
  "fst (preload \<lparr>find_spec = nothing_installed, normalize_to_canon = Some canon_16k\<rparr>
        (stop (init (Some ''de_DE-thorsten'') None 16000 [])))
     = Inl (RuntimeError not_installed_message)
   \<and> fst (snd (preload \<lparr>find_spec = nothing_installed, normalize_to_canon = Some canon_16k\<rparr>
        (stop (init (Some ''de_DE-thorsten'') None 16000 []))))
     = stop (init (Some ''de_DE-thorsten'') None 16000 [])
   \<and> fst (synth \<lparr>find_spec = nothing_installed, normalize_to_canon = Some canon_16k\<rparr> []
        (stop (init (Some ''de_DE-thorsten'') None 16000 [])) ''hallo'' None)
     = Inl (RuntimeError not_installed_message)
   \<and> fst (snd (synth \<lparr>find_spec = nothing_installed, normalize_to_canon = Some canon_16k\<rparr> []
        (stop (init (Some ''de_DE-thorsten'') None 16000 [])) ''hallo'' None))
     = stop (init (Some ''de_DE-thorsten'') None 16000 [])"
proof -
  let ?ev = "\<lparr>find_spec = nothing_installed, normalize_to_canon = Some canon_16k\<rparr>"
  let ?s = "stop (init (Some ''de_DE-thorsten'') None 16000 [])"
  have r: "require_piper ?ev = Inl (RuntimeError not_installed_message)"
    by (simp add: require_piper_def candidates_def nothing_installed_def)
  have p: "fst (preload ?ev ?s) = Inl (RuntimeError not_installed_message)"
    by (simp add: preload_def r)
  have y: "fst (synth ?ev [] ?s ''hallo'' None) = Inl (RuntimeError not_installed_message)"
    by (simp add: synth_def worker_view_def synth_entry_def r)
  show ?thesis
    using not_installed_state_unchanged [of ?ev ?s "[]" "''hallo''" None] p y by simp
qed

section \<open>The stop flag\<close>

text \<open>
  Claim C2. Once the availability check has passed, every call of \<open>synth\<close> clears the
  stop flag before it hands the synthesis routine to the worker thread: the routine
  runs on the adapter with the flag cleared and then changed only by the calls of other
  coroutines, and that adapter is the one the call leaves behind. So when \<open>stop\<close> and
  then \<open>synth\<close> run one after the other, with no other call in between, the routine
  finds the flag cleared, \<open>synth\<close> returns what the routine returns for the cleared
  adapter (normalised where that applies), the same as without the \<open>stop\<close>, and the flag
  is clear afterwards.
\<close>

theorem synth_clears_stop_flag:
  assumes "require_piper ev = Inr ()"
  shows "synth_entry ev s = Inr (s\<lparr>self_stopped := False\<rparr>)
    \<and> worker_view ev [] (stop s) = Inr (s\<lparr>self_stopped := False\<rparr>)
    \<and> fst (synth ev [] (stop s) text cancel) = fst (synth ev [] s text cancel)
    \<and> synth ev others s text cancel
        = (map_sum id (synth_return ev)
             (synth_blocking (foldl (other_step ev) (s\<lparr>self_stopped := False\<rparr>) others)
                text cancel),
           foldl (other_step ev) (s\<lparr>self_stopped := False\<rparr>) others,
           [ToThread (SynthBlocking text cancel)])
    \<and> synth ev [] (stop s) text cancel
        = (map_sum id (synth_return ev)
             (synth_blocking (s\<lparr>self_stopped := False\<rparr>) text cancel),
           s\<lparr>self_stopped := False\<rparr>,
           [ToThread (SynthBlocking text cancel)])
    \<and> \<not> self_stopped (fst (snd (synth ev [] (stop s) text cancel)))"
proof -
  have entry: "synth_entry ev s' = Inr (s'\<lparr>self_stopped := False\<rparr>)" for s'
    using assms by (simp add: synth_entry_def)
  have view: "worker_view ev os s' = Inr (foldl (other_step ev) (s'\<lparr>self_stopped := False\<rparr>) os)"
    for os s'
    by (simp add: worker_view_def entry)
  have call: "synth ev os s' text cancel
      = (map_sum id (synth_return ev)
           (synth_blocking (foldl (other_step ev) (s'\<lparr>self_stopped := False\<rparr>) os) text cancel),
         foldl (other_step ev) (s'\<lparr>self_stopped := False\<rparr>) os,
         [ToThread (SynthBlocking text cancel)])" for os s'
    by (cases "synth_blocking (foldl (other_step ev) (s'\<lparr>self_stopped := False\<rparr>) os) text cancel")
      (simp_all add: synth_def view)
  have st: "(stop s)\<lparr>self_stopped := False\<rparr> = s\<lparr>self_stopped := False\<rparr>"
    by (simp add: stop_def)
  show ?thesis
    using entry [of s] view [of "[]" "stop s"] call [of others s] call [of "[]" "stop s"]
      call [of "[]" s]
    by (simp add: st)
qed

theorem synth_clears_stop_flag_witness:
  "require_piper \<lparr>find_spec = only_piper, normalize_to_canon = None\<rparr> = Inr ()
   \<and> self_stopped (stop (init None None 22050 []))
   \<and> worker_view \<lparr>find_spec = only_piper, normalize_to_canon = None\<rparr> []
        (stop (init None None 22050 []))
      = Inr (init None None 22050 [])
   \<and> synth \<lparr>find_spec = only_piper, normalize_to_canon = None\<rparr> []
        (stop (init None None 22050 [])) ''hallo'' None
      = (Inr \<lparr>data = replicate 4410 0, rate = 22050, channels = 1, width = 2\<rparr>,
         init None None 22050 [],
         [ToThread (SynthBlocking ''hallo'' None)])
   \<and> \<not> self_stopped (fst (snd (synth \<lparr>find_spec = only_piper, normalize_to_canon = None\<rparr> []
        (stop (init None None 22050 [])) ''hallo'' None)))
   \<and> length (data (projr (fst (synth \<lparr>find_spec = only_piper, normalize_to_canon = None\<rparr> []
        (stop (init None None 22050 [])) ''hallo'' None)))) = 4410"
proof -
  let ?ev = "\<lparr>find_spec = only_piper, normalize_to_canon = None\<rparr>"
  let ?s = "init None None 22050 []"
  have a: "require_piper ?ev = Inr ()"
    by (simp add: require_piper_def candidates_def only_piper_def)
  have n: "n_samples 22050 = Inr 2205"
    using n_samples_div10 [of 22050] by simp
  have c: "?s\<lparr>self_stopped := False\<rparr> = ?s" by (simp add: init_def)
  have b: "synth_blocking ?s ''hallo'' None
      = Inr \<lparr>data = replicate 4410 0, rate = 22050, channels = 1, width = 2\<rparr>"
    by (simp add: synth_blocking_def init_def n bytes_repeat_zeros)
  have r: "synth_return ?ev p = p" for p by (simp add: synth_return_def)
  have f: "self_stopped (stop ?s)" by (simp add: stop_def)
  have g: "\<not> self_stopped ?s" by (simp add: init_def)
  show ?thesis
    using synth_clears_stop_flag [OF a, of ?s "''hallo''" None "[]"] a f g
    unfolding c by (simp add: b r)
qed

text \<open>
  Claim C1, as stated: with the stop flag set when the worker thread starts, \<open>synth\<close>
  returns an empty payload at the configured sample rate. It fails where the normaliser
  is there and returns: an adapter configured for 22050 Hz then returns what the
  normaliser made of the empty value, here at 16000 Hz.
\<close>

theorem stopped_synth_counterexample:
  "worker_view \<lparr>find_spec = only_piper, normalize_to_canon = Some canon_16k\<rparr> [OtherStop]
       (init None None 22050 [])
     = Inr (stop (init None None 22050 []))
   \<and> self_stopped (stop (init None None 22050 []))
   \<and> self_rate (init None None 22050 []) = 22050
   \<and> fst (synth \<lparr>find_spec = only_piper, normalize_to_canon = Some canon_16k\<rparr> [OtherStop]
        (init None None 22050 []) ''hallo'' None)
     = Inr \<lparr>data = [], rate = 16000, channels = 1, width = 2\<rparr>"
proof -
  let ?ev = "\<lparr>find_spec = only_piper, normalize_to_canon = Some canon_16k\<rparr>"
  have a: "require_piper ?ev = Inr ()"
    by (simp add: require_piper_def candidates_def only_piper_def)
  show ?thesis
    by (simp add: synth_def worker_view_def synth_entry_def a synth_blocking_def init_def
        stop_def synth_return_def canon_16k_def)
qed

text \<open>
  Claim C1, amended. With the stop flag set when the worker thread starts, the
  synthesis routine returns an empty payload with the configured sample rate, one
  channel and a sample width of 2, whatever the rate and the text, and computes no
  samples. \<open>synth\<close> returns this value itself when the normaliser is absent or raises on
  it, and otherwise what the normaliser returns for it.
\<close>

theorem stopped_synth_empty:
  assumes "worker_view ev others s = Inr s2" and "self_stopped s2"
  shows "synth_blocking s2 text cancel
      = Inr \<lparr>data = [], rate = self_rate s, channels = 1, width = 2\<rparr>
    \<and> fst (synth ev others s text cancel)
      = Inr (case normalize_to_canon ev of
               None \<Rightarrow> \<lparr>data = [], rate = self_rate s, channels = 1, width = 2\<rparr>
             | Some f \<Rightarrow>
                 (case f \<lparr>data = [], rate = self_rate s, channels = 1, width = 2\<rparr> of
                    Inl e \<Rightarrow> \<lparr>data = [], rate = self_rate s, channels = 1, width = 2\<rparr>
                  | Inr canon \<Rightarrow> canon))"
proof -
  have "synth_blocking s2 text cancel
      = Inr \<lparr>data = [], rate = self_rate s, channels = 1, width = 2\<rparr>"
    using assms worker_view_rate [OF assms(1)] by (simp add: synth_blocking_def)
  then show ?thesis
    using assms(1) by (simp add: synth_def synth_return_def)
qed

theorem stopped_synth_empty_witness:
  "worker_view \<lparr>find_spec = only_piper, normalize_to_canon = None\<rparr> [OtherSynth, OtherStop]
       (init None None (2 ^ 1024) [])
     = Inr (stop (init None None (2 ^ 1024) []))
   \<and> self_stopped (stop (init None None (2 ^ 1024) []))
   \<and> fst (synth \<lparr>find_spec = only_piper, normalize_to_canon = None\<rparr> [OtherSynth, OtherStop]
        (init None None (2 ^ 1024) []) ''hallo'' None)
     = Inr \<lparr>data = [], rate = 2 ^ 1024, channels = 1, width = 2\<rparr>"
proof -
  let ?ev = "\<lparr>find_spec = only_piper, normalize_to_canon = None\<rparr>"
  let ?s = "init None None (2 ^ 1024) []"
  have a: "require_piper ?ev = Inr ()"
    by (simp add: require_piper_def candidates_def only_piper_def)
  have w: "worker_view ?ev [OtherSynth, OtherStop] ?s = Inr (stop ?s)"
    by (simp add: worker_view_def synth_entry_def a init_def stop_def)
  have f: "self_stopped (stop ?s)" by (simp add: stop_def)
  have r: "self_rate ?s = 2 ^ 1024" by (simp add: init_def)
  show ?thesis
    using stopped_synth_empty [OF w f, of "''hallo''" None] w f unfolding r by simp
qed

section \<open>The placeholder's audio\<close>

text \<open>
  Claim C4, as stated: with the flag clear, the payload has exactly
  \<open>sample_rate * 0.1 * 2\<close> bytes. It fails at the sample rate 11025: the number of
  samples is truncated to 1102 before it is doubled, which gives 2204 bytes, not 2205.
\<close>

theorem placeholder_length_counterexample:
  "fst (synth \<lparr>find_spec = only_piper, normalize_to_canon = None\<rparr> []
        (init None None 11025 []) ''hallo'' None)
     = Inr \<lparr>data = replicate 2204 0, rate = 11025, channels = 1, width = 2\<rparr>
   \<and> spec_payload_bytes 11025 = 2205
   \<and> real (length (replicate 2204 (0::byte))) \<noteq> spec_payload_bytes 11025"
proof -
  let ?ev = "\<lparr>find_spec = only_piper, normalize_to_canon = None\<rparr>"
  have a: "require_piper ?ev = Inr ()"
    by (simp add: require_piper_def candidates_def only_piper_def)
  have n: "n_samples 11025 = Inr 1102"
    using n_samples_div10 [of 11025] by simp
  show ?thesis
    by (simp add: synth_def worker_view_def synth_entry_def a synth_blocking_def init_def n
        bytes_repeat_zeros synth_return_def spec_payload_bytes_def)
qed

text \<open>
  Claim C4, amended. For a sample rate \<open>r\<close> from 0 up to \<open>2 ^ 31\<close>, with the flag clear
  when the worker thread starts, the synthesis routine returns \<open>2 * (r div 10)\<close> zero
  bytes (\<open>r div 10\<close> samples of 16-bit mono silence) at the rate \<open>r\<close>: 4410 bytes at 22050,
  and \<open>sample_rate * 0.1 * 2\<close> bytes at every rate that is a multiple of ten.
  \<open>synth\<close> returns this value itself when the normaliser is absent or raises on it, and
  otherwise what the normaliser returns for it.
\<close>

theorem placeholder_silence:
  assumes "worker_view ev others s = Inr s2" and "\<not> self_stopped s2"
    and "0 \<le> self_rate s" and "self_rate s < 2 ^ 31"
  shows "synth_blocking s2 text cancel
      = Inr \<lparr>data = replicate (2 * nat (self_rate s div 10)) 0, rate = self_rate s,
             channels = 1, width = 2\<rparr>
    \<and> fst (synth ev others s text cancel)
      = Inr (case normalize_to_canon ev of
               None \<Rightarrow> \<lparr>data = replicate (2 * nat (self_rate s div 10)) 0, rate = self_rate s,
                         channels = 1, width = 2\<rparr>
             | Some f \<Rightarrow>
                 (case f \<lparr>data = replicate (2 * nat (self_rate s div 10)) 0,
                           rate = self_rate s, channels = 1, width = 2\<rparr> of
                    Inl e \<Rightarrow> \<lparr>data = replicate (2 * nat (self_rate s div 10)) 0,
                               rate = self_rate s, channels = 1, width = 2\<rparr>
                  | Inr canon \<Rightarrow> canon))
    \<and> (10 dvd self_rate s
         \<longrightarrow> real (2 * nat (self_rate s div 10)) = spec_payload_bytes (self_rate s))"
proof -
  have whole: "real (2 * nat (self_rate s div 10)) = spec_payload_bytes (self_rate s)"
    if "10 dvd self_rate s"
  proof -
    from that obtain k where k: "self_rate s = 10 * k" ..
    with assms(3) have "0 \<le> k" by simp
    then show ?thesis by (simp add: k spec_payload_bytes_def)
  qed
  have "self_rate s < 2 ^ 52" using assms(4) by simp
  then have "n_samples (self_rate s) = Inr (self_rate s div 10)"
    using assms(3) by (rule n_samples_div10 [rotated])
  then have "synth_blocking s2 text cancel
      = Inr \<lparr>data = replicate (2 * nat (self_rate s div 10)) 0, rate = self_rate s,
             channels = 1, width = 2\<rparr>"
    using assms(2) worker_view_rate [OF assms(1)]
    by (simp add: synth_blocking_def bytes_repeat_zeros)
  then show ?thesis
    using assms(1) whole by (simp add: synth_def synth_return_def)
qed

theorem placeholder_silence_witness:
  "worker_view \<lparr>find_spec = only_piper, normalize_to_canon = None\<rparr> []
       (init None None 22050 [])
     = Inr (init None None 22050 [])
   \<and> \<not> self_stopped (init None None 22050 [])
   \<and> fst (synth \<lparr>find_spec = only_piper, normalize_to_canon = None\<rparr> []
        (init None None 22050 []) ''hallo'' None)
     = Inr \<lparr>data = replicate 4410 0, rate = 22050, channels = 1, width = 2\<rparr>
   \<and> length (replicate 4410 (0::byte)) = 4410
   \<and> spec_payload_bytes 22050 = 4410"
proof -
  let ?ev = "\<lparr>find_spec = only_piper, normalize_to_canon = None\<rparr>"
  let ?s = "init None None 22050 []"
  have a: "require_piper ?ev = Inr ()"
    by (simp add: require_piper_def candidates_def only_piper_def)
  have w: "worker_view ?ev [] ?s = Inr ?s"
    by (simp add: worker_view_def synth_entry_def a init_def)
  have f: "\<not> self_stopped ?s" by (simp add: init_def)
  have r: "self_rate ?s = 22050" by (simp add: init_def)
  have lo: "0 \<le> self_rate ?s" and hi: "self_rate ?s < 2 ^ 31" by (simp_all add: r)
  show ?thesis
    using placeholder_silence [OF w f lo hi, of "''hallo''" None] w f unfolding r
    by (simp add: spec_payload_bytes_def)
qed

text \<open>
  Claim C5, as stated: once the availability check has passed, \<open>synth\<close> returns a PCM
  value for every text. It fails for an adapter whose sample rate is too large for a
  float: at the rate \<open>2 ^ 1024\<close> the product with \<open>0.1\<close> raises \<^verbatim>\<open>OverflowError\<close>, and
  \<open>synth\<close> raises it in turn.
\<close>

theorem synth_returns_pcm_counterexample:
  "require_piper \<lparr>find_spec = only_piper, normalize_to_canon = None\<rparr> = Inr ()
   \<and> fst (synth \<lparr>find_spec = only_piper, normalize_to_canon = None\<rparr> []
        (init None None (2 ^ 1024) []) ''hallo'' None)
     = Inl OverflowError"
proof -
  let ?ev = "\<lparr>find_spec = only_piper, normalize_to_canon = None\<rparr>"
  have a: "require_piper ?ev = Inr ()"
    by (simp add: require_piper_def candidates_def only_piper_def)
  have n: "n_samples (2 ^ 1024) = Inl OverflowError"
    by code_simp
  show ?thesis
    using n
    by (simp add: synth_def worker_view_def synth_entry_def a synth_blocking_def init_def)
qed

text \<open>
  Claim C5, amended. For all texts, once the availability check has passed, for a
  sample rate of magnitude below \<open>2 ^ 31\<close> and a normaliser that, where it returns,
  returns a value with one channel and a sample width of 2, \<open>synth\<close> returns a PCM
  value with one channel and a sample width of 2: with the flag set or clear, with
  the normaliser absent, raising or returning.
\<close>

theorem synth_returns_pcm:
  assumes "require_piper ev = Inr ()"
    and "\<bar>self_rate s\<bar> < 2 ^ 31"
    and "\<forall>f p canon. normalize_to_canon ev = Some f \<and> f p = Inr canon
           \<longrightarrow> channels canon = 1 \<and> width canon = 2"
  shows "\<exists>pcm. fst (synth ev others s text cancel) = Inr pcm
           \<and> channels pcm = 1 \<and> width pcm = 2"
proof -
  obtain s2 where w: "worker_view ev others s = Inr s2"
    using assms(1) worker_view_available [of ev others s] by blast
  have "(2::int) ^ 31 \<le> 2 ^ 1023" by (rule power_increasing) simp_all
  with assms(2) have "\<bar>self_rate s2\<bar> < 2 ^ 1023"
    using worker_view_rate [OF w] by linarith
  then obtain n where n: "n_samples (self_rate s2) = Inr n"
    using n_samples_small by blast
  obtain raw where raw: "synth_blocking s2 text cancel = Inr raw"
    and fmt: "channels raw = 1" "width raw = 2"
    using n by (cases "self_stopped s2") (simp_all add: synth_blocking_def)
  have "channels (synth_return ev raw) = 1 \<and> width (synth_return ev raw) = 2"
  proof (cases "normalize_to_canon ev")
    case None
    then show ?thesis using fmt by (simp add: synth_return_def)
  next
    case (Some f)
    then show ?thesis
      using fmt assms(3) by (cases "f raw") (auto simp add: synth_return_def)
  qed
  then show ?thesis
    using w raw by (simp add: synth_def)
qed

theorem synth_returns_pcm_witness:
  "require_piper \<lparr>find_spec = only_piper, normalize_to_canon = Some canon_16k\<rparr> = Inr ()
   \<and> \<bar>self_rate (init None None 16000 [])\<bar> < 2 ^ 31
   \<and> (\<forall>f p canon. \<not> (normalize_to_canon
           \<lparr>find_spec = only_piper, normalize_to_canon = Some canon_16k\<rparr> = Some f
         \<and> f p = Inr canon \<and> \<not> (channels canon = 1 \<and> width canon = 2)))
   \<and> (\<exists>pcm. fst (synth \<lparr>find_spec = only_piper, normalize_to_canon = Some canon_16k\<rparr> []
        (init None None 16000 []) ''hallo'' None) = Inr pcm
         \<and> channels pcm = 1 \<and> width pcm = 2)"
proof -
  let ?ev = "\<lparr>find_spec = only_piper, normalize_to_canon = Some canon_16k\<rparr>"
  let ?s = "init None None 16000 []"
  have a: "require_piper ?ev = Inr ()"
    by (simp add: require_piper_def candidates_def only_piper_def)
  have b: "\<bar>self_rate ?s\<bar> < 2 ^ 31" by (simp add: init_def)
  have c: "\<forall>f p canon. normalize_to_canon ?ev = Some f \<and> f p = Inr canon
      \<longrightarrow> channels canon = 1 \<and> width canon = 2"
    by (auto simp add: canon_16k_def split: if_splits)
  from c have c': "\<forall>f p canon. \<not> (normalize_to_canon ?ev = Some f
      \<and> f p = Inr canon \<and> \<not> (channels canon = 1 \<and> width canon = 2))"
    by blast
  show ?thesis
    using synth_returns_pcm [OF a b c, of "[]" "''hallo''" None] a b c' by blast
qed

section \<open>Normalisation and \<open>say\<close>\<close>

text \<open>
  Claim C6. When the normalisation helper is there and raises on the value the worker
  thread returned, \<open>synth\<close> returns that value itself and raises nothing.
\<close>

theorem normalization_failure_suppressed:
  assumes "normalize_to_canon ev = Some f"
    and "worker_view ev others s = Inr s2"
    and "synth_blocking s2 text cancel = Inr pcm"
    and "f pcm = Inl e"
  shows "fst (synth ev others s text cancel) = Inr pcm"
  using assms by (simp add: synth_def synth_return_def)

theorem normalization_failure_suppressed_witness:
  "normalize_to_canon \<lparr>find_spec = only_piper, normalize_to_canon = Some canon_16k\<rparr>
     = Some canon_16k
   \<and> canon_16k \<lparr>data = replicate 4410 0, rate = 22050, channels = 1, width = 2\<rparr>
     = Inl (OtherException ''resampling is not available'')
   \<and> fst (synth \<lparr>find_spec = only_piper, normalize_to_canon = Some canon_16k\<rparr> []
        (init None None 22050 []) ''hallo'' None)
     = Inr \<lparr>data = replicate 4410 0, rate = 22050, channels = 1, width = 2\<rparr>"
proof -
  let ?ev = "\<lparr>find_spec = only_piper, normalize_to_canon = Some canon_16k\<rparr>"
  let ?s = "init None None 22050 []"
  let ?pcm = "\<lparr>data = replicate 4410 0, rate = 22050, channels = 1, width = 2\<rparr>"
  have a: "require_piper ?ev = Inr ()"
    by (simp add: require_piper_def candidates_def only_piper_def)
  have w: "worker_view ?ev [] ?s = Inr ?s"
    by (simp add: worker_view_def synth_entry_def a init_def)
  have n: "n_samples 22050 = Inr 2205"
    using n_samples_div10 [of 22050] by simp
  have b: "synth_blocking ?s ''hallo'' None = Inr ?pcm"
    by (simp add: synth_blocking_def init_def n bytes_repeat_zeros)
  have "replicate 4410 (0::byte) \<noteq> []"
    by (simp add: replicate_empty)
  then have c: "canon_16k ?pcm = Inl (OtherException ''resampling is not available'')"
    by (simp add: canon_16k_def)
  have h: "normalize_to_canon ?ev = Some canon_16k" by simp
  show ?thesis
    using normalization_failure_suppressed [OF h w b c] c by simp
qed

text \<open>
  Claim C7. \<open>say\<close> does what \<open>synth\<close> does with the same text and token, gives back no
  audio, and plays nothing: the only effect it can leave is the one call of the
  synthesis routine on a worker thread.
\<close>

theorem say_discards_audio:
  "fst (say ev others s text cancel)
     = map_sum id (\<lambda>pcm. ()) (fst (synth ev others s text cancel))
   \<and> snd (say ev others s text cancel) = snd (synth ev others s text cancel)
   \<and> (snd (snd (say ev others s text cancel)) = []
        \<or> snd (snd (say ev others s text cancel)) = [ToThread (SynthBlocking text cancel)])
   \<and> (\<forall>pcm. SinkPlay pcm \<notin> set (snd (snd (say ev others s text cancel))))"
proof -
  obtain r s' effs where y: "synth ev others s text cancel = (r, s', effs)"
    by (cases "synth ev others s text cancel")
  then have "effs = [] \<or> effs = [ToThread (SynthBlocking text cancel)]"
    by (auto simp add: synth_def split: sum.splits)
  then show ?thesis
    using y by (cases r) (auto simp add: say_def)
qed

theorem say_discards_audio_witness:
  "say \<lparr>find_spec = only_piper, normalize_to_canon = None\<rparr> [] (init None None 22050 [])
       ''hallo'' None
     = (Inr (), init None None 22050 [], [ToThread (SynthBlocking ''hallo'' None)])"
proof -
  let ?ev = "\<lparr>find_spec = only_piper, normalize_to_canon = None\<rparr>"
  let ?s = "init None None 22050 []"
  have a: "require_piper ?ev = Inr ()"
    by (simp add: require_piper_def candidates_def only_piper_def)
  have n: "n_samples 22050 = Inr 2205"
    using n_samples_div10 [of 22050] by simp
  have "synth ?ev [] ?s ''hallo'' None
      = (Inr \<lparr>data = replicate 4410 0, rate = 22050, channels = 1, width = 2\<rparr>, ?s,
         [ToThread (SynthBlocking ''hallo'' None)])"
    by (simp add: synth_def worker_view_def synth_entry_def a synth_blocking_def init_def n
        bytes_repeat_zeros synth_return_def)
  then show ?thesis
    using say_discards_audio [of ?ev "[]" ?s "''hallo''" None]
    by (cases "say ?ev [] ?s ''hallo'' None") (auto simp add: map_sum_def split: sum.splits)
qed

section \<open>Importing the module\<close>

text \<open>
  Claim C8, as stated: importing the adapter module never raises. It fails where the
  package \<^verbatim>\<open>auicommon\<close> is not installed: the import of \<^verbatim>\<open>PcmAudio\<close> at the top of the
  module stands outside every \<^verbatim>\<open>try\<close>, and its error leaves the module.
\<close>

theorem module_import_counterexample:
  "load_module
     \<lparr>import_PcmAudio = Some (ModuleNotFoundError ''auicommon''),
      import_convert = Inl (ModuleNotFoundError ''auicommon''),
      import_factory = Inl (ModuleNotFoundError ''auicore'')\<rparr>
   = Inl (ModuleNotFoundError ''auicommon'')"
  by (simp add: load_module_def)

text \<open>
  Claim C8, amended. When the import of \<^verbatim>\<open>PcmAudio\<close> succeeds, importing the adapter
  module raises nothing: a failed import of the normalisation helper leaves the
  normaliser absent, and any exception in the self-registration under the key
  \<^verbatim>\<open>piper\<close> (the factory module missing, its \<^verbatim>\<open>register\<close> raising, its \<^verbatim>\<open>REGISTRY\<close> refusing
  the assignment) is caught and leaves the adapter unregistered.
\<close>

theorem module_import_succeeds:
  assumes "import_PcmAudio im = None"
  shows "\<exists>m. load_module im = Inr m
    \<and> (module_normalize_to_canon m = None) = (\<exists>e. import_convert im = Inl e)
    \<and> ((\<exists>e. registration_body (import_factory im) = Inl e)
         \<longrightarrow> module_registration m = NotRegistered)
    \<and> (\<forall>r. registration_body (import_factory im) = Inr r \<longrightarrow> module_registration m = r)"
  using assms
  by (cases "import_convert im"; cases "registration_body (import_factory im)")
    (simp_all add: load_module_def)

theorem module_import_succeeds_witness:
  "load_module
     \<lparr>import_PcmAudio = None,
      import_convert = Inl (ModuleNotFoundError ''auicommon.audio.convert''),
      import_factory = Inr \<lparr>register = Some rejecting_register, REGISTRY = None\<rparr>\<rparr>
   = Inr \<lparr>module_normalize_to_canon = None, module_registration = NotRegistered\<rparr>"
proof -
  let ?im = "\<lparr>import_PcmAudio = None,
      import_convert = Inl (ModuleNotFoundError ''auicommon.audio.convert''),
      import_factory = Inr \<lparr>register = Some rejecting_register, REGISTRY = None\<rparr>\<rparr>"
  have a: "import_PcmAudio ?im = None" by simp
  have b: "registration_body (import_factory ?im) = Inl (OtherException ''registry is closed'')"
    by (simp add: registration_body_def rejecting_register_def)
  show ?thesis
    using module_import_succeeds [OF a] b by (auto simp add: load_module_def)
qed

section \<open>The stub's two operations\<close>

text \<open>
  Claim C9. From any state of the stub, \<open>say\<close> sets the speaking flag and prints one line
  that ends with the text; \<open>stop\<close> prints a line exactly when the flag was set, and
  clears the flag in every case.
\<close>

theorem stub_say_stop:
  "self_speaking (fst (stub_say s text))
   \<and> snd (stub_say s text) = [''[Piper] say: '' @ text]
   \<and> (snd (stub_stop s) \<noteq> []) = self_speaking s
   \<and> \<not> self_speaking (fst (stub_stop s))"
  by (simp add: stub_say_def stub_stop_def)

theorem stub_say_stop_witness:
  "self_speaking (fst (stub_say stub_init ''hallo''))
   \<and> snd (stub_say stub_init ''hallo'') = [''[Piper] say: hallo'']
   \<and> snd (stub_stop stub_init) = []
   \<and> snd (stub_stop (fst (stub_say stub_init ''hallo''))) = [''[Piper] stop'']
   \<and> \<not> self_speaking (fst (stub_stop (fst (stub_say stub_init ''hallo''))))"
  using stub_say_stop [of stub_init "''hallo''"]
    stub_say_stop [of "fst (stub_say stub_init ''hallo'')" "''hallo''"]
  by (simp add: stub_say_def stub_stop_def stub_init_def)

end
